theory Spec2Isabelle
  imports Complex_Main
begin

section \<open>PaginationUI: load-state reducer, data loader and pagination view\<close>

text \<open>
  A shallow embedding of \<^verbatim>\<open>src/components/PaginationUI.jsx\<close>.

  JavaScript values are modelled as follows.
  \<^item> The loaded collection (\<^verbatim>\<open>state.data\<close>, the parsed response body) is a list of
    items of an arbitrary type \<open>'a\<close>.
  \<^item> An error (\<^verbatim>\<open>null\<close> or the \<^verbatim>\<open>message\<close> of the thrown \<^verbatim>\<open>Error\<close>) is a
    \<open>string option\<close>; \<open>None\<close> is \<^verbatim>\<open>null\<close>.
  \<^item> The page index and every number derived from it is an \<open>int\<close>: they are integral
    JavaScript numbers far below \<open>2^53\<close>, where the arithmetic of doubles is exact.
  \<^item> An exception is a value: \<open>Inl m\<close> is a throw of an \<^verbatim>\<open>Error\<close> with message \<open>m\<close>.
\<close>

subsection \<open>Load state and reducer\<close>

record 'a fetch_result =
  error :: "string option"
  data :: "'a list"

record 'a action =
  type :: string
  data :: "'a list"
  error :: "string option"

record 'a state =
  data :: "'a list"
  isLoading :: bool
  error :: "string option"

text \<open>\<^verbatim>\<open>const initialState = { data: [], isLoading: false, error: null }\<close>\<close>

definition initialState :: "'a state" where
  "initialState = \<lparr>data = [], isLoading = False, error = None\<rparr>"

text \<open>
  The \<^verbatim>\<open>switch (action.type)\<close> of the reducer, case by case. The spread \<^verbatim>\<open>...state\<close>
  followed by the named fields is a record update.
\<close>

definition reducer :: "'a state \<Rightarrow> 'a action \<Rightarrow> 'a state" where
  "reducer s a =
     (if action.type a = ''LOADING'' then s\<lparr>isLoading := True, error := None\<rparr>
      else if action.type a = ''OK'' then
        s\<lparr>isLoading := False, data := action.data a, error := None\<rparr>
      else if action.type a = ''ERROR'' then s\<lparr>isLoading := False, error := action.error a\<rparr>
      else s)"

text \<open>The three actions the component dispatches.\<close>

definition LOADING :: "'a action" where
  "LOADING = \<lparr>action.type = ''LOADING'', action.data = [], action.error = None\<rparr>"

definition OK :: "'a list \<Rightarrow> 'a action" where
  "OK d = \<lparr>action.type = ''OK'', action.data = d, action.error = None\<rparr>"

definition ERROR :: "string option \<Rightarrow> 'a action" where
  "ERROR e = \<lparr>action.type = ''ERROR'', action.data = [], action.error = e\<rparr>"

text \<open>A sequence of dispatches, applied from left to right.\<close>

definition dispatch_all :: "'a state \<Rightarrow> 'a action list \<Rightarrow> 'a state" where
  "dispatch_all s as = foldl reducer s as"

text \<open>
  JavaScript truthiness of an error value: \<^verbatim>\<open>null\<close> and the empty string are falsy,
  every other string is truthy.
\<close>

definition truthy :: "string option \<Rightarrow> bool" where
  "truthy e = (case e of None \<Rightarrow> False | Some m \<Rightarrow> m \<noteq> [])"

subsection \<open>Data loader\<close>

text \<open>
  What the environment answers to \<^verbatim>\<open>fetch(url, headers)\<close>: the promise rejects with an
  error (its message), or resolves to a response with its \<^verbatim>\<open>ok\<close> flag and the outcome of
  \<^verbatim>\<open>response.json()\<close>, which rejects on a malformed body or resolves to the parsed body.
\<close>

record 'a response =
  ok :: bool
  json :: "string + 'a list"

type_synonym 'a fetch_outcome = "string + 'a response"

definition fixed_message :: string where
  "fixed_message = ''Could not fetch data from server. Please try again later.''"

text \<open>The body of the \<^verbatim>\<open>try\<close> block: \<open>Inl\<close> is a throw, \<open>Inr\<close> the returned object.\<close>

definition fetchData_try :: "'a fetch_outcome \<Rightarrow> string + 'a fetch_result" where
  "fetchData_try outcome =
     (case outcome of
        Inl m \<Rightarrow> Inl m
      | Inr response \<Rightarrow>
          if \<not> ok response then Inl fixed_message
          else (case json response of
                  Inl m \<Rightarrow> Inl m
                | Inr resData \<Rightarrow>
                    Inr \<lparr>fetch_result.error = None, fetch_result.data = resData\<rparr>))"

text \<open>The \<^verbatim>\<open>catch (err)\<close> block turns every throw into a returned object.\<close>

definition fetchData :: "'a fetch_outcome \<Rightarrow> 'a fetch_result" where
  "fetchData outcome =
     (case fetchData_try outcome of
        Inl message \<Rightarrow> \<lparr>fetch_result.error = Some message, fetch_result.data = []\<rparr>
      | Inr result \<Rightarrow> result)"

subsection \<open>Derived values and handlers of the view\<close>

definition itemsPerPage :: int where
  "itemsPerPage = 10"

text \<open>\<^verbatim>\<open>Math.ceil(state.data.length / itemsPerPage)\<close>: a real division, rounded up.\<close>

definition totalPages :: "'a list \<Rightarrow> int" where
  "totalPages d = \<lceil>real (length d) / real_of_int itemsPerPage\<rceil>"

text \<open>
  \<^verbatim>\<open>Array.prototype.slice(start, end)\<close> on integral arguments: a negative bound counts
  from the end of the array, each bound is clamped to \<open>[0, length]\<close>, and the elements
  from the first bound up to (not including) the second are copied; none when the second
  is not beyond the first.
\<close>

definition slice :: "'a list \<Rightarrow> int \<Rightarrow> int \<Rightarrow> 'a list" where
  "slice xs start stop =
     (let len = int (length xs);
          k = (if start < 0 then max (len + start) 0 else min start len);
          final = (if stop < 0 then max (len + stop) 0 else min stop len)
      in take (nat (max (final - k) 0)) (drop (nat k) xs))"

definition currentPageItems :: "'a list \<Rightarrow> int \<Rightarrow> 'a list" where
  "currentPageItems d pagination =
     slice d ((pagination - 1) * itemsPerPage) (pagination * itemsPerPage)"

text \<open>
  The handlers return the next value of \<^verbatim>\<open>pagination\<close>; where the guard before
  \<^verbatim>\<open>&&\<close> is false, \<^verbatim>\<open>setPagination\<close> is not called and the value stays.
\<close>

definition handlePrevious :: "int \<Rightarrow> int" where
  "handlePrevious pagination = (if pagination > 1 then pagination - 1 else pagination)"

definition handleNext :: "int \<Rightarrow> int \<Rightarrow> int" where
  "handleNext n_pages pagination =
     (if pagination < n_pages then pagination + 1 else pagination)"

definition handlePageClick :: "int \<Rightarrow> int \<Rightarrow> int" where
  "handlePageClick num pagination = num"

subsection \<open>Rendering\<close>

text \<open>
  The rendered tree, reduced to what the properties are about: whether the loading
  paragraph is there, the text of the error paragraph if it is there, and, if the list
  and the controls are there, the list items, the two edge buttons (their \<^verbatim>\<open>disabled\<close>
  attribute and whether the class \<^verbatim>\<open>styles.disabled\<close> is on them) and the numbered
  buttons (the page each one selects and whether the class \<^verbatim>\<open>styles.active\<close> is on it).
\<close>

record nav_button =
  class_disabled :: bool
  disabled :: bool

record page_button =
  number :: int
  class_active :: bool

record 'a controls =
  list_items :: "'a list"
  previous_button :: nav_button
  numbered :: "page_button list"
  next_button :: nav_button

record 'a view =
  loading_shown :: bool
  error_shown :: "string option"
  content :: "'a controls option"

definition render :: "'a state \<Rightarrow> int \<Rightarrow> 'a view" where
  "render s pagination =
     \<lparr>loading_shown = isLoading s,
      error_shown = (if truthy (state.error s) then state.error s else None),
      content =
        (if \<not> isLoading s \<and> \<not> truthy (state.error s) then
           Some \<lparr>list_items = currentPageItems (state.data s) pagination,
                 previous_button = \<lparr>class_disabled = (pagination = 1), disabled = (pagination = 1)\<rparr>,
                 numbered =
                   map (\<lambda>index. \<lparr>number = index + 1, class_active = (pagination = index + 1)\<rparr>)
                     [0 .. totalPages (state.data s) - 1],
                 next_button = \<lparr>class_disabled = (pagination = totalPages (state.data s)),
                         disabled = (pagination = totalPages (state.data s))\<rparr>\<rparr>
         else None)\<rparr>"

text \<open>How many of the three regions (loading, error, list with controls) a view shows.\<close>

definition shown :: "'a view \<Rightarrow> nat" where
  "shown v =
     (if loading_shown v then 1 else 0) +
     (if error_shown v = None then 0 else 1) +
     (if content v = None then 0 else 1)"

subsection \<open>The component as a transition system\<close>

text \<open>
  The component owns the reducer state and the page index. The effect with the empty
  dependency list runs once: it dispatches \<open>LOADING\<close> and starts the fetch; when the
  fetch settles, \<open>handleFetch\<close> dispatches \<open>ERROR\<close> if the result's error is truthy and
  \<open>OK\<close> otherwise. A numbered button can be clicked only when it is rendered.
\<close>

datatype phase = Unmounted | Fetching | Settled

record 'a component =
  state :: "'a state"
  pagination :: int
  phase :: phase

datatype 'a event =
  Mount
  | Settle "'a fetch_outcome"
  | Previous
  | Next
  | PageClick int

definition initialComponent :: "'a component" where
  "initialComponent = \<lparr>state = initialState, pagination = 1, phase = Unmounted\<rparr>"

definition handleFetch_settled :: "'a state \<Rightarrow> 'a fetch_result \<Rightarrow> 'a state" where
  "handleFetch_settled s r =
     (if truthy (fetch_result.error r) then reducer s (ERROR (fetch_result.error r))
      else reducer s (OK (fetch_result.data r)))"

fun step :: "'a component \<Rightarrow> 'a event \<Rightarrow> 'a component option" where
  "step c Mount =
     (if phase c = Unmounted
      then Some (c\<lparr>state := reducer (state c) LOADING, phase := Fetching\<rparr>)
      else None)"
| "step c (Settle outcome) =
     (if phase c = Fetching
      then Some (c\<lparr>state := handleFetch_settled (state c) (fetchData outcome),
                   phase := Settled\<rparr>)
      else None)"
| "step c Previous = Some (c\<lparr>pagination := handlePrevious (pagination c)\<rparr>)"
| "step c Next =
     Some (c\<lparr>pagination := handleNext (totalPages (state.data (state c))) (pagination c)\<rparr>)"
| "step c (PageClick num) =
     (case content (render (state c) (pagination c)) of
        None \<Rightarrow> None
      | Some controls \<Rightarrow>
          if num \<in> set (map number (numbered controls))
          then Some (c\<lparr>pagination := handlePageClick num (pagination c)\<rparr>)
          else None)"

fun run :: "'a component \<Rightarrow> 'a event list \<Rightarrow> 'a component option" where
  "run c [] = Some c"
| "run c (e # es) = (case step c e of None \<Rightarrow> None | Some c' \<Rightarrow> run c' es)"

subsection \<open>An example input\<close>

text \<open>Twenty-five items, which fill two pages and half of a third; used in the examples.\<close>

abbreviation items25 :: "int list" where
  "items25 \<equiv>
     [1, 2, 3, 4, 5, 6, 7, 8, 9, 10, 11, 12, 13, 14, 15, 16, 17, 18, 19, 20,
      21, 22, 23, 24, 25]"

section \<open>Properties\<close>

subsection \<open>Reducer\<close>

text \<open>
  Claim C8. For every state \<open>s\<close> and every action whose type is not LOADING, OK or ERROR,
  the reducer returns a state equal to \<open>s\<close>: the unrecognized-action transition is the
  identity.
\<close>

theorem reducer_unrecognized_identity:
  assumes "action.type a \<noteq> ''LOADING''"
    and "action.type a \<noteq> ''OK''"
    and "action.type a \<noteq> ''ERROR''"
  shows "reducer s a = s"
  using assms by (simp add: reducer_def)

theorem reducer_unrecognized_identity_witness:
  "reducer \<lparr>data = [1::nat, 2], isLoading = True, error = Some ''e''\<rparr>
     \<lparr>action.type = ''RESET'', action.data = [], action.error = None\<rparr>
   = \<lparr>data = [1, 2], isLoading = True, error = Some ''e''\<rparr>"
  using reducer_unrecognized_identity
    [of "\<lparr>action.type = ''RESET'', action.data = [], action.error = None\<rparr>"
        "\<lparr>data = [1::nat, 2], isLoading = True, error = Some ''e''\<rparr>"]
  by simp

subsection \<open>Data loader\<close>

lemma fetchData_not_ok:
  "\<not> ok response \<Longrightarrow>
     fetchData (Inr response) =
       \<lparr>fetch_result.error = Some fixed_message, fetch_result.data = []\<rparr>"
  by (simp add: fetchData_def fetchData_try_def)

lemma fetchData_rejects:
  "fetchData (Inl m) = \<lparr>fetch_result.error = Some m, fetch_result.data = []\<rparr>"
  by (simp add: fetchData_def fetchData_try_def)

lemma fetchData_json_throws:
  "ok response \<Longrightarrow> json response = Inl m \<Longrightarrow>
     fetchData (Inr response) = \<lparr>fetch_result.error = Some m, fetch_result.data = []\<rparr>"
  by (simp add: fetchData_def fetchData_try_def)

lemma fetchData_success:
  "ok response \<Longrightarrow> json response = Inr resData \<Longrightarrow>
     fetchData (Inr response) =
       \<lparr>fetch_result.error = None, fetch_result.data = resData\<rparr>"
  by (simp add: fetchData_def fetchData_try_def)

text \<open>
  Claim C5. \<open>fetchData\<close> always returns a result object and lets no throw escape (in
  the model the throw is the \<open>Inl\<close> of \<open>fetchData_try\<close>, and \<open>fetchData\<close> is a total
  function into result objects). A response with a non-success status gives an error
  result with exactly the fixed message; a rejected \<^verbatim>\<open>fetch\<close> or a rejected
  \<^verbatim>\<open>response.json()\<close> gives an error result with that failure's own message; otherwise
  the result has a null error and the parsed body as its data.
\<close>

theorem fetchData_result:
  "(\<forall>response. \<not> ok response \<longrightarrow>
      fetch_result.error (fetchData (Inr response) :: 'a fetch_result)
        = Some ''Could not fetch data from server. Please try again later.'') \<and>
   (\<forall>m. fetch_result.error (fetchData (Inl m) :: 'a fetch_result) = Some m) \<and>
   (\<forall>response m. ok response \<and> json response = Inl m \<longrightarrow>
      fetch_result.error (fetchData (Inr response) :: 'a fetch_result) = Some m) \<and>
   (\<forall>response resData. ok response \<and> json response = Inr resData \<longrightarrow>
      (fetchData (Inr response) :: 'a fetch_result)
        = \<lparr>fetch_result.error = None, fetch_result.data = resData\<rparr>) \<and>
   (\<forall>(outcome :: 'a fetch_outcome) m.
      fetchData_try outcome = Inl m \<longrightarrow> fetch_result.error (fetchData outcome) = Some m)"
proof (intro conjI allI impI)
  fix response :: "'a response"
  assume "\<not> ok response"
  then show "fetch_result.error (fetchData (Inr response))
      = Some ''Could not fetch data from server. Please try again later.''"
    by (simp add: fetchData_not_ok fixed_message_def)
next
  fix m :: string
  show "fetch_result.error (fetchData (Inl m) :: 'a fetch_result) = Some m"
    by (simp add: fetchData_rejects)
next
  fix response :: "'a response" and m :: string
  assume "ok response \<and> json response = Inl m"
  then show "fetch_result.error (fetchData (Inr response)) = Some m"
    by (simp add: fetchData_json_throws)
next
  fix response :: "'a response" and resData :: "'a list"
  assume "ok response \<and> json response = Inr resData"
  then show "fetchData (Inr response)
      = \<lparr>fetch_result.error = None, fetch_result.data = resData\<rparr>"
    by (simp add: fetchData_success)
next
  fix outcome :: "'a fetch_outcome" and m :: string
  assume "fetchData_try outcome = Inl m"
  then show "fetch_result.error (fetchData outcome) = Some m"
    by (simp add: fetchData_def)
qed

theorem fetchData_result_witness:
  "\<not> ok \<lparr>ok = False, json = Inr [1::nat]\<rparr> \<and>
   fetch_result.error (fetchData (Inr \<lparr>ok = False, json = Inr [1::nat]\<rparr>))
     = Some ''Could not fetch data from server. Please try again later.'' \<and>
   fetch_result.error (fetchData (Inl ''Failed to fetch'') :: nat fetch_result)
     = Some ''Failed to fetch'' \<and>
   ok \<lparr>ok = True, json = Inl ''Unexpected token''\<rparr> \<and>
   fetch_result.error
       (fetchData (Inr \<lparr>ok = True, json = (Inl ''Unexpected token'' :: string + nat list)\<rparr>))
     = Some ''Unexpected token'' \<and>
   fetchData (Inr \<lparr>ok = True, json = Inr [1::nat, 2]\<rparr>)
     = \<lparr>fetch_result.error = None, fetch_result.data = [1, 2]\<rparr>"
proof -
  note r = fetchData_result [where 'a = nat]
  have a: "fetch_result.error (fetchData (Inr \<lparr>ok = False, json = Inr [1::nat]\<rparr>))
     = Some ''Could not fetch data from server. Please try again later.''"
    using r by simp
  have b: "fetch_result.error (fetchData (Inl ''Failed to fetch'') :: nat fetch_result)
     = Some ''Failed to fetch''"
    using r by blast
  have c: "fetch_result.error
       (fetchData (Inr \<lparr>ok = True, json = (Inl ''Unexpected token'' :: string + nat list)\<rparr>))
     = Some ''Unexpected token''"
    using r by simp
  have d: "fetchData (Inr \<lparr>ok = True, json = Inr [1::nat, 2]\<rparr>)
     = \<lparr>fetch_result.error = None, fetch_result.data = [1, 2]\<rparr>"
    using r by simp
  from a b c d show ?thesis by simp
qed

text \<open>
  Claim C10. Every error result of \<open>fetchData\<close> carries the empty list as its data: a
  result whose error is not null is the pair of that message and \<open>[]\<close>.
\<close>

theorem fetchData_error_data_empty:
  assumes "fetch_result.error (fetchData outcome) = Some message"
  shows "fetchData outcome = \<lparr>fetch_result.error = Some message, fetch_result.data = []\<rparr>"
  using assms
  by (auto simp: fetchData_def fetchData_try_def split: sum.splits if_splits)

theorem fetchData_error_data_empty_witness:
  "fetch_result.error (fetchData (Inr \<lparr>ok = False, json = Inr [1::nat, 2, 3]\<rparr>))
     = Some fixed_message \<and>
   fetchData (Inr \<lparr>ok = False, json = Inr [1::nat, 2, 3]\<rparr>)
     = \<lparr>fetch_result.error = Some fixed_message, fetch_result.data = []\<rparr>"
proof -
  have h: "fetch_result.error (fetchData (Inr \<lparr>ok = False, json = Inr [1::nat, 2, 3]\<rparr>))
     = Some fixed_message"
    by (simp add: fetchData_def fetchData_try_def)
  from h fetchData_error_data_empty [OF h] show ?thesis by simp
qed

subsection \<open>Page count and numbered controls\<close>

lemma ceil_div10: "- (- (n::int) div 10) = (n + 9) div 10"
  by linarith

lemma div10_bounds: "10 * (((n::int) + 9) div 10 - 1) < n \<and> n \<le> 10 * ((n + 9) div 10)"
proof -
  define q where "q = (n + 9) div 10"
  define r where "r = (n + 9) mod 10"
  have "0 \<le> r" and "r < 10"
    by (simp_all add: r_def)
  moreover have "q * 10 + r = n + 9"
    unfolding q_def r_def by (rule div_mult_mod_eq)
  ultimately have "10 * q - 10 < n \<and> n \<le> 10 * q"
    by linarith
  then show ?thesis
    by (simp add: q_def algebra_simps)
qed

lemma totalPages_div: "totalPages d = (int (length d) + 9) div 10"
proof -
  have "totalPages d = \<lceil>real_of_int (int (length d)) / real_of_int 10\<rceil>"
    by (simp add: totalPages_def itemsPerPage_def)
  also have "\<dots> = - (- int (length d) div 10)"
    by (rule ceiling_divide_eq_div)
  finally show ?thesis by (simp only: ceil_div10)
qed

lemma totalPages_bounds:
  "10 * (totalPages d - 1) < int (length d) \<and> int (length d) \<le> 10 * totalPages d"
  unfolding totalPages_div by (rule div10_bounds)

lemma totalPages_Nil: "totalPages [] = 0"
  by (simp add: totalPages_div)

lemma slice_page:
  assumes "0 \<le> a" "a \<le> b"
  shows "slice xs a b = take (nat (b - a)) (drop (nat a) xs)"
  using assms
  by (auto simp: slice_def Let_def min_def max_def take_all)

lemma map_index_upto:
  "map (\<lambda>index. f (index + 1)) [0 .. t - 1] = map f [1 .. t]"
  by (rule nth_equalityI) (simp_all add: algebra_simps)

lemma render_loaded:
  assumes "\<not> isLoading s" "\<not> truthy (state.error s)"
  shows "render s p =
     \<lparr>loading_shown = False, error_shown = None,
      content = Some
        \<lparr>list_items = currentPageItems (state.data s) p,
         previous_button = \<lparr>class_disabled = (p = 1), disabled = (p = 1)\<rparr>,
         numbered = map (\<lambda>n. \<lparr>number = n, class_active = (p = n)\<rparr>) [1 .. totalPages (state.data s)],
         next_button = \<lparr>class_disabled = (p = totalPages (state.data s)),
                        disabled = (p = totalPages (state.data s))\<rparr>\<rparr>\<rparr>"
  using assms by (simp add: render_def map_index_upto [of "\<lambda>n. \<lparr>number = n, class_active = (p = n)\<rparr>"])

text \<open>
  Claim C4. For every loaded list of \<open>n\<close> items, \<open>totalPages\<close> is \<open>n / 10\<close> rounded up,
  that is the one integer \<open>k\<close> with \<open>10 * (k - 1) < n \<le> 10 * k\<close>; the view
  renders the numbered controls \<open>1, \<dots>, totalPages\<close>; and for \<open>n = 0\<close>, \<open>totalPages\<close>
  is \<open>0\<close> and no numbered control is rendered.
\<close>

theorem totalPages_ceiling:
  assumes "\<not> isLoading s" and "\<not> truthy (state.error s)"
  shows "totalPages (state.data s) = \<lceil>real (length (state.data s)) / 10\<rceil> \<and>
         10 * (totalPages (state.data s) - 1) < int (length (state.data s)) \<and>
         int (length (state.data s)) \<le> 10 * totalPages (state.data s) \<and>
         map_option (map number \<circ> numbered) (content (render s p))
           = Some [1 .. totalPages (state.data s)] \<and>
         (length (state.data s) = 0 \<longrightarrow>
            totalPages (state.data s) = 0 \<and>
            map_option numbered (content (render s p)) = Some [])"
proof -
  have a: "totalPages (state.data s) = \<lceil>real (length (state.data s)) / 10\<rceil>"
    by (simp add: totalPages_def itemsPerPage_def)
  have b: "map_option (map number \<circ> numbered) (content (render s p))
           = Some [1 .. totalPages (state.data s)]"
    by (simp add: render_loaded [OF assms] comp_def)
  have c: "length (state.data s) = 0 \<longrightarrow>
            totalPages (state.data s) = 0 \<and>
            map_option numbered (content (render s p)) = Some []"
    by (simp add: render_loaded [OF assms] totalPages_Nil)
  from a b c totalPages_bounds [of "state.data s"] show ?thesis by blast
qed

theorem totalPages_ceiling_witness:
  "\<not> isLoading \<lparr>state.data = items25, isLoading = False, state.error = None\<rparr> \<and>
   \<not> truthy (state.error \<lparr>state.data = items25, isLoading = False, state.error = None\<rparr>) \<and>
   totalPages items25 = 3 \<and>
   map_option (map number \<circ> numbered)
     (content (render \<lparr>state.data = items25, isLoading = False, state.error = None\<rparr> 2))
     = Some [1, 2, 3] \<and>
   length ([] :: int list) = 0 \<and>
   totalPages ([] :: int list) = 0 \<and>
   map_option numbered
     (content (render \<lparr>state.data = ([] :: int list), isLoading = False, state.error = None\<rparr> 1))
     = Some []"
proof -
  let ?s = "\<lparr>state.data = items25, isLoading = False, state.error = None\<rparr>"
  let ?e = "\<lparr>state.data = ([] :: int list), isLoading = False, state.error = None\<rparr>"
  have l: "\<not> isLoading ?s" "\<not> truthy (state.error ?s)"
    by (simp_all add: truthy_def)
  have le: "\<not> isLoading ?e" "\<not> truthy (state.error ?e)"
    by (simp_all add: truthy_def)
  have t: "totalPages items25 = 3"
    using totalPages_ceiling [OF l, of 2] by simp
  have "map_option (map number \<circ> numbered) (content (render ?s 2))
      = Some [1 .. totalPages items25]"
    using totalPages_ceiling [OF l, of 2] by (simp only: state.select_convs)
  then have "map_option (map number \<circ> numbered) (content (render ?s 2)) = Some [1 .. 3]"
    by (simp only: t)
  then have n: "map_option (map number \<circ> numbered) (content (render ?s 2)) = Some [1, 2, 3]"
    by (simp add: upto_rec1)
  have z: "totalPages ([] :: int list) = 0 \<and>
     map_option numbered (content (render ?e 1)) = Some []"
    using totalPages_ceiling [OF le, of 1] by simp
  from l t n z show ?thesis by simp
qed

subsection \<open>The visible slice\<close>

lemma currentPageItems_take_drop:
  assumes "1 \<le> p"
  shows "currentPageItems d p = take 10 (drop (nat ((p - 1) * 10)) d)"
proof -
  have "slice d ((p - 1) * 10) (p * 10) = take (nat (p * 10 - (p - 1) * 10)) (drop (nat ((p - 1) * 10)) d)"
    using assms by (intro slice_page) simp_all
  moreover have "nat (p * 10 - (p - 1) * 10) = 10"
    by (simp add: algebra_simps)
  ultimately show ?thesis
    by (simp add: currentPageItems_def itemsPerPage_def)
qed

text \<open>
  Claim C3. For every loaded list of \<open>n\<close> items and every page index \<open>p\<close> with
  \<open>1 \<le> p \<le> totalPages\<close>, the visible slice is the items at the positions
  \<open>(p - 1) * 10, \<dots>, p * 10 - 1\<close> that exist: item \<open>i\<close> of the slice is item
  \<open>(p - 1) * 10 + i\<close> of the list, and the slice has \<open>min 10 (n - (p - 1) * 10)\<close> items,
  so at most 10 (and at least one); on the last page it has exactly
  \<open>n - (totalPages - 1) * 10\<close> items.
\<close>

theorem currentPageItems_slice:
  assumes "1 \<le> p" and "p \<le> totalPages d"
  shows "currentPageItems d p = take 10 (drop (nat ((p - 1) * 10)) d) \<and>
         int (length (currentPageItems d p)) = min 10 (int (length d) - (p - 1) * 10) \<and>
         (\<forall>i < length (currentPageItems d p).
            currentPageItems d p ! i = d ! (nat ((p - 1) * 10) + i)) \<and>
         length (currentPageItems d p) \<le> 10 \<and>
         0 < length (currentPageItems d p) \<and>
         (p = totalPages d \<longrightarrow>
            int (length (currentPageItems d p)) = int (length d) - (totalPages d - 1) * 10)"
proof -
  let ?c = "currentPageItems d p"
  have c: "?c = take 10 (drop (nat ((p - 1) * 10)) d)"
    using assms(1) by (rule currentPageItems_take_drop)
  have lo: "10 * (p - 1) < int (length d)"
    using assms(2) totalPages_bounds [of d] by presburger
  define m where "m = nat ((p - 1) * 10)"
  have m: "int m = (p - 1) * 10"
    using assms(1) by (simp add: m_def)
  have ml: "m < length d"
    using lo m by linarith
  moreover have "length ?c = min 10 (length d - m)"
    by (simp add: c m_def)
  ultimately have "int (length ?c) = min 10 (int (length d) - int m)"
    by linarith
  then have len: "int (length ?c) = min 10 (int (length d) - (p - 1) * 10)"
    by (simp only: m)
  have nth: "\<forall>i < length ?c. ?c ! i = d ! (nat ((p - 1) * 10) + i)"
  proof (intro allI impI)
    fix i
    assume "i < length ?c"
    then have "?c ! i = drop m d ! i"
      by (simp add: c m_def)
    also have "\<dots> = d ! (m + i)"
      using ml by (simp add: nth_drop)
    finally show "?c ! i = d ! (nat ((p - 1) * 10) + i)"
      by (simp only: m_def)
  qed
  have last: "p = totalPages d \<longrightarrow>
      int (length ?c) = int (length d) - (totalPages d - 1) * 10"
    using totalPages_bounds [of d] len by (auto simp: min_def)
  have le10: "length ?c \<le> 10"
    using len by linarith
  have pos: "0 < length ?c"
    using len m ml by linarith
  from c len nth le10 pos last show ?thesis
    by (intro conjI)
qed


theorem currentPageItems_slice_witness:
  "(1::int) \<le> 3 \<and>
   3 \<le> totalPages items25 \<and>
   currentPageItems items25 3 = [21, 22, 23, 24, 25] \<and>
   int (length (currentPageItems items25 3)) = 25 - (3 - 1) * 10 \<and>
   length (currentPageItems items25 3) \<le> 10"
proof -
  let ?d = "items25"
  have h1: "(1::int) \<le> 3"
    by simp
  have h2: "3 \<le> totalPages ?d"
    by (simp add: totalPages_div)
  note r = currentPageItems_slice [OF h1 h2]
  have c: "currentPageItems ?d 3 = [21, 22, 23, 24, 25]"
    using r by simp
  have l: "int (length (currentPageItems ?d 3)) = 25 - (3 - 1) * 10"
    by (simp add: c)
  have b: "length (currentPageItems ?d 3) \<le> 10"
    using r by blast
  from h1 h2 c l b show ?thesis
    by (intro conjI)
qed

subsection \<open>Handlers and edge buttons\<close>

text \<open>
  Claim C9. The handlers have guards of their own, whatever the \<^verbatim>\<open>disabled\<close> attributes
  say: for \<open>p \<le> 1\<close>, \<open>handlePrevious\<close> leaves the page index as it is, and for
  \<open>p \<ge> totalPages\<close>, \<open>handleNext\<close> leaves it as it is. That includes the empty list,
  where \<open>totalPages = 0\<close> and the Next button rendered for \<open>p = 1\<close> has
  \<^verbatim>\<open>disabled = false\<close>.
\<close>

theorem handlers_guarded:
  "(p \<le> 1 \<longrightarrow> handlePrevious p = p) \<and>
   (totalPages d \<le> p \<longrightarrow> handleNext (totalPages d) p = p) \<and>
   totalPages ([] :: 'a list) = 0 \<and>
   map_option (disabled \<circ> next_button)
     (content (render \<lparr>state.data = ([] :: 'a list), isLoading = False, state.error = None\<rparr> 1))
     = Some False \<and>
   handleNext (totalPages ([] :: 'a list)) 1 = 1"
  by (simp add: handlePrevious_def handleNext_def totalPages_Nil render_def truthy_def)

theorem handlers_guarded_witness:
  "(0::int) \<le> 1 \<and> handlePrevious 0 = 0 \<and> handlePrevious 1 = 1 \<and>
   totalPages items25 \<le> 3 \<and> handleNext (totalPages items25) 3 = 3 \<and>
   totalPages items25 \<le> 7 \<and> handleNext (totalPages items25) 7 = 7 \<and>
   handleNext (totalPages ([] :: int list)) 1 = 1"
proof -
  have t: "totalPages items25 = 3"
    by (simp add: totalPages_div)
  have a: "handlePrevious 0 = 0"
    using handlers_guarded [of 0 "[] :: int list"] by auto
  have b: "handlePrevious 1 = 1"
    using handlers_guarded [of 1 "[] :: int list"] by auto
  have c: "handleNext (totalPages items25) 3 = 3"
    using handlers_guarded [of 3 "items25"] t by auto
  have d: "handleNext (totalPages items25) 7 = 7"
    using handlers_guarded [of 7 "items25"] t by auto
  have e: "handleNext (totalPages ([] :: int list)) 1 = 1"
    using handlers_guarded [of 1 "[] :: int list"] by blast
  from t a b c d e show ?thesis
    by simp
qed

text \<open>
  Claim C1, evaluated on the empty list. A fetch that answers with an empty array leaves
  the component with the data loaded (\<^verbatim>\<open>isLoading = false\<close>, \<^verbatim>\<open>error = null\<close>), no
  items and the page index 1. The view of that state has no numbered control and a
  disabled Previous button, but its Next button is not disabled:
  \<^verbatim>\<open>pagination === totalPages\<close> is \<^verbatim>\<open>1 === 0\<close>.
\<close>

theorem next_button_not_disabled_on_empty_list:
  "run initialComponent [Mount, Settle (Inr \<lparr>ok = True, json = Inr []\<rparr>)] =
     Some \<lparr>state = \<lparr>state.data = [], isLoading = False, state.error = None\<rparr>,
           pagination = 1, phase = Settled\<rparr> \<and>
   totalPages [] = 0 \<and>
   render \<lparr>state.data = [], isLoading = False, state.error = None\<rparr> 1 =
     \<lparr>loading_shown = False, error_shown = None,
      content = Some
        \<lparr>list_items = [],
         previous_button = \<lparr>class_disabled = True, disabled = True\<rparr>,
         numbered = [],
         next_button = \<lparr>class_disabled = False, disabled = False\<rparr>\<rparr>\<rparr>"
proof (intro conjI)
  show "run initialComponent [Mount, Settle (Inr \<lparr>ok = True, json = Inr []\<rparr>)] =
     Some \<lparr>state = \<lparr>state.data = [], isLoading = False, state.error = None\<rparr>,
           pagination = 1, phase = Settled\<rparr>"
    by (simp add: initialComponent_def initialState_def reducer_def LOADING_def OK_def
        handleFetch_settled_def fetchData_def fetchData_try_def truthy_def)
  show "totalPages [] = 0"
    by (rule totalPages_Nil)
  show "render \<lparr>state.data = [], isLoading = False, state.error = None\<rparr> 1 =
     \<lparr>loading_shown = False, error_shown = None,
      content = Some
        \<lparr>list_items = [],
         previous_button = \<lparr>class_disabled = True, disabled = True\<rparr>,
         numbered = [],
         next_button = \<lparr>class_disabled = False, disabled = False\<rparr>\<rparr>\<rparr>"
    by (simp add: render_def truthy_def totalPages_Nil currentPageItems_def slice_def)
qed

text \<open>
  What the two \<^verbatim>\<open>disabled\<close> attributes are in every view of loaded data: Previous is
  disabled iff \<open>p = 1\<close>, Next is disabled iff \<open>p = totalPages\<close>.
\<close>

theorem edge_buttons_disabled:
  assumes "\<not> isLoading s" and "\<not> truthy (state.error s)"
  shows "map_option (disabled \<circ> previous_button) (content (render s p)) = Some (p = 1) \<and>
         map_option (disabled \<circ> next_button) (content (render s p))
           = Some (p = totalPages (state.data s))"
  by (simp add: render_loaded [OF assms])

theorem edge_buttons_disabled_witness:
  "map_option (disabled \<circ> previous_button)
     (content (render \<lparr>state.data = items25, isLoading = False, state.error = None\<rparr> 3))
     = Some False \<and>
   map_option (disabled \<circ> next_button)
     (content (render \<lparr>state.data = items25, isLoading = False, state.error = None\<rparr> 3))
     = Some True"
proof -
  let ?s = "\<lparr>state.data = items25, isLoading = False, state.error = None\<rparr>"
  have l: "\<not> isLoading ?s" "\<not> truthy (state.error ?s)"
    by (simp_all add: truthy_def)
  have t: "totalPages items25 = 3"
    by (simp add: totalPages_div)
  from edge_buttons_disabled [OF l, of 3] t show ?thesis
    by simp
qed

subsection \<open>Loading, error and data are shown one at a time\<close>

lemma reducer_loading_no_error:
  assumes "isLoading s \<longrightarrow> state.error s = None"
  shows "isLoading (reducer s a) \<longrightarrow> state.error (reducer s a) = None"
  using assms by (simp add: reducer_def)

lemma dispatch_all_loading_no_error:
  assumes "isLoading s \<longrightarrow> state.error s = None"
  shows "isLoading (dispatch_all s as) \<longrightarrow> state.error (dispatch_all s as) = None"
  using assms
proof (induction as arbitrary: s)
  case Nil
  then show ?case by (simp add: dispatch_all_def)
next
  case (Cons a as)
  from Cons.IH [OF reducer_loading_no_error [OF Cons.prems, of a]]
  show ?case by (simp add: dispatch_all_def)
qed

lemma shown_render_one:
  assumes "isLoading s \<longrightarrow> state.error s = None"
  shows "shown (render s p) = 1"
  using assms by (auto simp: shown_def render_def truthy_def split: option.splits)

text \<open>
  Claim C7. In every state reached from the initial state by reducer transitions,
  \<^verbatim>\<open>isLoading\<close> and \<^verbatim>\<open>error\<close> are never both truthy, and the view of that state shows
  exactly one of the loading indicator, the error text and the list with its controls.
\<close>

theorem loading_error_exclusive:
  "\<not> (isLoading (dispatch_all initialState as) \<and>
       truthy (state.error (dispatch_all initialState as))) \<and>
   shown (render (dispatch_all initialState as) p) = 1"
proof -
  have i: "isLoading (initialState :: 'a state) \<longrightarrow> state.error (initialState :: 'a state) = None"
    by (simp add: initialState_def)
  note inv = dispatch_all_loading_no_error [OF i, of as]
  from inv have "\<not> (isLoading (dispatch_all initialState as) \<and>
       truthy (state.error (dispatch_all initialState as)))"
    by (auto simp: truthy_def)
  with shown_render_one [OF inv, of p] show ?thesis
    by simp
qed

theorem loading_error_exclusive_witness:
  "render (dispatch_all initialState [LOADING, ERROR (Some ''Failed to fetch'')]) 1
     = \<lparr>loading_shown = False, error_shown = Some ''Failed to fetch'',
        content = (None :: nat controls option)\<rparr> \<and>
   shown (render (dispatch_all (initialState :: nat state)
      [LOADING, ERROR (Some ''Failed to fetch'')]) 1) = 1 \<and>
   render (dispatch_all initialState [LOADING, ERROR (Some ''Failed to fetch''), LOADING]) 1
     = \<lparr>loading_shown = True, error_shown = None, content = (None :: nat controls option)\<rparr> \<and>
   shown (render (dispatch_all (initialState :: nat state)
      [LOADING, ERROR (Some ''Failed to fetch''), LOADING]) 1) = 1"
proof -
  have a: "render (dispatch_all initialState [LOADING, ERROR (Some ''Failed to fetch'')]) 1
     = \<lparr>loading_shown = False, error_shown = Some ''Failed to fetch'',
        content = (None :: nat controls option)\<rparr>"
    by (simp add: dispatch_all_def initialState_def reducer_def LOADING_def ERROR_def
        render_def truthy_def)
  have b: "render (dispatch_all initialState [LOADING, ERROR (Some ''Failed to fetch''), LOADING]) 1
     = \<lparr>loading_shown = True, error_shown = None, content = (None :: nat controls option)\<rparr>"
    by (simp add: dispatch_all_def initialState_def reducer_def LOADING_def ERROR_def
        render_def truthy_def)
  from a b
    loading_error_exclusive [where 'a = nat, of "[LOADING, ERROR (Some ''Failed to fetch'')]" 1]
    loading_error_exclusive [where 'a = nat,
      of "[LOADING, ERROR (Some ''Failed to fetch''), LOADING]" 1]
  show ?thesis
    by blast
qed

subsection \<open>Items in an error state\<close>

text \<open>
  Claim C2 as stated fails: the \<open>ERROR\<close> case spreads the old state and sets only
  \<^verbatim>\<open>isLoading\<close> and \<^verbatim>\<open>error\<close>, so an \<open>ERROR\<close> after an \<open>OK\<close> with items leaves a
  state with a non-null error and those items.
\<close>

theorem error_keeps_items_counterexample:
  "state.error (dispatch_all initialState
      [LOADING, OK [1::nat, 2], LOADING, ERROR (Some ''Failed to fetch'')])
     = Some ''Failed to fetch'' \<and>
   state.data (dispatch_all initialState
      [LOADING, OK [1::nat, 2], LOADING, ERROR (Some ''Failed to fetch'')])
     = [1, 2]"
  by (simp add: dispatch_all_def initialState_def reducer_def LOADING_def OK_def ERROR_def)

lemma reducer_not_OK_data:
  "action.type a \<noteq> ''OK'' \<Longrightarrow> state.data (reducer s a) = state.data s"
  by (simp add: reducer_def)

lemma dispatch_all_not_OK_data:
  "\<forall>a \<in> set as. action.type a \<noteq> ''OK'' \<Longrightarrow>
     state.data (dispatch_all s as) = state.data s"
proof (induction as arbitrary: s)
  case Nil
  then show ?case by (simp add: dispatch_all_def)
next
  case (Cons a as)
  then have "state.data (dispatch_all (reducer s a) as) = state.data (reducer s a)"
    by simp
  moreover have "state.data (reducer s a) = state.data s"
    using Cons.prems by (simp add: reducer_not_OK_data)
  ultimately show ?case by (simp add: dispatch_all_def)
qed

lemma dispatch_all_empty_OK_data:
  "\<forall>a \<in> set as. action.type a = ''OK'' \<longrightarrow> action.data a = [] \<Longrightarrow>
     state.data s = [] \<Longrightarrow> state.data (dispatch_all s as) = []"
proof (induction as arbitrary: s)
  case Nil
  then show ?case by (simp add: dispatch_all_def)
next
  case (Cons a as)
  have "state.data (reducer s a) = []"
    using Cons.prems by (simp add: reducer_def)
  with Cons.IH [of "reducer s a"] Cons.prems(1) show ?case
    by (simp add: dispatch_all_def)
qed

text \<open>
  Claim C2, amended. Only \<open>OK\<close> changes the items: after \<open>OK(d)\<close>, any sequence of
  transitions other than \<open>OK\<close> (\<open>ERROR\<close> among them) leaves the items \<open>d\<close>. So, from
  the initial state, by any sequence of transitions whose \<open>OK\<close> transitions all carry the
  empty list, a state with a non-null error has no items.
\<close>

theorem error_items_empty_amended:
  "((\<forall>a \<in> set as. action.type a \<noteq> ''OK'') \<longrightarrow>
       state.data (dispatch_all (reducer s (OK d)) as) = d) \<and>
   ((\<forall>a \<in> set as. action.type a = ''OK'' \<longrightarrow> action.data a = []) \<longrightarrow>
       state.error (dispatch_all initialState as) \<noteq> None \<longrightarrow>
       state.data (dispatch_all initialState as) = [])"
proof (intro conjI impI)
  assume "\<forall>a \<in> set as. action.type a \<noteq> ''OK''"
  then have "state.data (dispatch_all (reducer s (OK d)) as) = state.data (reducer s (OK d))"
    by (rule dispatch_all_not_OK_data)
  then show "state.data (dispatch_all (reducer s (OK d)) as) = d"
    by (simp add: reducer_def OK_def)
next
  assume "\<forall>a \<in> set as. action.type a = ''OK'' \<longrightarrow> action.data a = []"
  then show "state.data (dispatch_all initialState as) = []"
    by (rule dispatch_all_empty_OK_data) (simp add: initialState_def)
qed

theorem error_items_empty_amended_witness:
  "state.data (dispatch_all (reducer initialState (OK [1::nat, 2]))
      [LOADING, ERROR (Some ''Failed to fetch'')]) = [1, 2] \<and>
   state.error (dispatch_all (initialState :: nat state)
      [LOADING, OK [], LOADING, ERROR (Some ''Failed to fetch'')]) \<noteq> None \<and>
   state.data (dispatch_all (initialState :: nat state)
      [LOADING, OK [], LOADING, ERROR (Some ''Failed to fetch'')]) = []"
proof -
  let ?as = "[LOADING, ERROR (Some ''Failed to fetch'') :: nat action]"
  let ?bs = "[LOADING, OK [], LOADING, ERROR (Some ''Failed to fetch'') :: nat action]"
  have h1: "\<forall>a \<in> set ?as. action.type a \<noteq> ''OK''"
    by (simp add: LOADING_def ERROR_def)
  have h2: "\<forall>a \<in> set ?bs. action.type a = ''OK'' \<longrightarrow> action.data a = []"
    by (simp add: LOADING_def ERROR_def OK_def)
  have h3: "state.error (dispatch_all (initialState :: nat state) ?bs) \<noteq> None"
    by (simp add: dispatch_all_def initialState_def reducer_def LOADING_def OK_def ERROR_def)
  have a: "state.data (dispatch_all (reducer initialState (OK [1::nat, 2])) ?as) = [1, 2]"
    using error_items_empty_amended [of ?as initialState "[1::nat, 2]"] h1 by blast
  have b: "state.data (dispatch_all (initialState :: nat state) ?bs) = []"
    using error_items_empty_amended [of ?bs] h2 h3 by blast
  from a h3 b show ?thesis
    by (intro conjI)
qed

subsection \<open>The page index stays in range\<close>

lemma reducer_LOADING_data: "state.data (reducer s LOADING) = state.data s"
  by (simp add: reducer_def LOADING_def)

lemma PageClick_rendered:
  assumes "content (render s p) = Some controls"
    and "num \<in> set (map number (numbered controls))"
  shows "1 \<le> num \<and> num \<le> totalPages (state.data s)"
proof -
  have "numbered controls =
      map (\<lambda>index. \<lparr>number = index + 1, class_active = (p = index + 1)\<rparr>)
        [0 .. totalPages (state.data s) - 1]"
    using assms(1) by (auto simp: render_def split: if_splits)
  then have "map number (numbered controls) = map (\<lambda>index. index + 1) [0 .. totalPages (state.data s) - 1]"
    by (simp add: comp_def)
  with assms(2) show ?thesis
    by auto
qed

lemma step_invariant:
  assumes "step c e = Some c'"
    and "1 \<le> pagination c"
    and "pagination c \<le> max 1 (totalPages (state.data (state c)))"
    and "phase c \<noteq> Settled \<longrightarrow> state.data (state c) = []"
  shows "1 \<le> pagination c' \<and>
         pagination c' \<le> max 1 (totalPages (state.data (state c'))) \<and>
         (phase c' \<noteq> Settled \<longrightarrow> state.data (state c') = [])"
proof (cases e)
  case Mount
  with assms show ?thesis
    by (auto simp: reducer_LOADING_data split: if_splits)
next
  case (Settle outcome)
  with assms(1) have f: "phase c = Fetching"
    and c': "c' = c\<lparr>state := handleFetch_settled (state c) (fetchData outcome), phase := Settled\<rparr>"
    by (auto split: if_splits)
  from f assms(4) have "totalPages (state.data (state c)) = 0"
    by (simp add: totalPages_Nil)
  with assms(2,3) have "pagination c = 1"
    by simp
  then show ?thesis
    by (simp add: c')
next
  case Previous
  with assms show ?thesis
    by (auto simp: handlePrevious_def)
next
  case Next
  with assms show ?thesis
    by (auto simp: handleNext_def)
next
  case (PageClick num)
  with assms(1) obtain controls where r: "content (render (state c) (pagination c)) = Some controls"
    and n: "num \<in> set (map number (numbered controls))"
    and c': "c' = c\<lparr>pagination := handlePageClick num (pagination c)\<rparr>"
    by (auto split: option.splits if_splits)
  from PageClick_rendered [OF r n] assms(4) show ?thesis
    by (simp add: c' handlePageClick_def)
qed

lemma run_invariant:
  assumes "run c es = Some c'"
    and "1 \<le> pagination c"
    and "pagination c \<le> max 1 (totalPages (state.data (state c)))"
    and "phase c \<noteq> Settled \<longrightarrow> state.data (state c) = []"
  shows "1 \<le> pagination c' \<and> pagination c' \<le> max 1 (totalPages (state.data (state c')))"
  using assms
proof (induction es arbitrary: c)
  case Nil
  then show ?case by simp
next
  case (Cons e es)
  from Cons.prems(1) obtain c1 where s: "step c e = Some c1" and r: "run c1 es = Some c'"
    by (auto split: option.splits)
  from step_invariant [OF s Cons.prems(2,3,4)] Cons.IH [OF r] show ?case
    by blast
qed

text \<open>
  Claim C6. The page index starts at 1. In every state the component reaches by the
  navigation steps (\<open>handlePrevious\<close>, \<open>handleNext\<close>, \<open>handlePageClick\<close> on a rendered
  numbered control) and its one data load, \<open>1 \<le> pagination \<le> max 1 totalPages\<close>.
\<close>

theorem pagination_in_range:
  assumes "run initialComponent es = Some c"
  shows "1 \<le> pagination c \<and> pagination c \<le> max 1 (totalPages (state.data (state c)))"
  using assms
  by (rule run_invariant) (simp_all add: initialComponent_def initialState_def totalPages_Nil)


theorem pagination_in_range_witness:
  "run initialComponent
     [Mount, Next, Settle (Inr \<lparr>ok = True, json = Inr items25\<rparr>),
      Next, Next, Next, PageClick 2, Previous, PageClick 3]
     = Some \<lparr>state = \<lparr>state.data = items25, isLoading = False, state.error = None\<rparr>,
              pagination = 3, phase = Settled\<rparr> \<and>
   totalPages items25 = 3 \<and>
   (1::int) \<le> 3 \<and> (3::int) \<le> max 1 3"
proof -
  let ?es = "[Mount, Next, Settle (Inr \<lparr>ok = True, json = Inr items25\<rparr>),
      Next, Next, Next, PageClick 2, Previous, PageClick 3]"
  let ?c = "\<lparr>state = \<lparr>state.data = items25, isLoading = False, state.error = None\<rparr>,
              pagination = 3, phase = Settled\<rparr>"
  have t: "totalPages items25 = 3"
    by (simp add: totalPages_div)
  have r: "run initialComponent ?es = Some ?c"
    by (simp add: initialComponent_def initialState_def reducer_def LOADING_def OK_def
        ERROR_def handleFetch_settled_def fetchData_def fetchData_try_def truthy_def
        handleNext_def handlePrevious_def handlePageClick_def render_def totalPages_div
        upto_rec1)
  from pagination_in_range [OF r] have "1 \<le> pagination ?c \<and>
      pagination ?c \<le> max 1 (totalPages (state.data (state ?c)))" .
  with r t show ?thesis
    by simp
qed


subsection \<open>Items of the component in an error state\<close>

lemma step_error_invariant:
  assumes "step c e = Some c'"
    and "phase c \<noteq> Settled \<longrightarrow> state.data (state c) = []"
    and "state.error (state c) \<noteq> None \<longrightarrow> state.data (state c) = []"
  shows "(phase c' \<noteq> Settled \<longrightarrow> state.data (state c') = []) \<and>
         (state.error (state c') \<noteq> None \<longrightarrow> state.data (state c') = [])"
proof (cases e)
  case Mount
  with assms show ?thesis
    by (auto simp: reducer_def LOADING_def split: if_splits)
next
  case (Settle outcome)
  with assms show ?thesis
    by (auto simp: handleFetch_settled_def reducer_def OK_def ERROR_def split: if_splits)
next
  case Previous
  with assms show ?thesis by auto
next
  case Next
  with assms show ?thesis by auto
next
  case (PageClick num)
  with assms show ?thesis
    by (auto split: option.splits if_splits)
qed

lemma run_error_invariant:
  assumes "run c es = Some c'"
    and "phase c \<noteq> Settled \<longrightarrow> state.data (state c) = []"
    and "state.error (state c) \<noteq> None \<longrightarrow> state.data (state c) = []"
  shows "state.error (state c') \<noteq> None \<longrightarrow> state.data (state c') = []"
  using assms
proof (induction es arbitrary: c)
  case Nil
  then show ?case by simp
next
  case (Cons e es)
  from Cons.prems(1) obtain c1 where s: "step c e = Some c1" and r: "run c1 es = Some c'"
    by (auto split: option.splits)
  from step_error_invariant [OF s Cons.prems(2,3)] Cons.IH [OF r] show ?case
    by blast
qed

text \<open>
  In the component itself the reducer sees \<open>LOADING\<close> once and then one \<open>OK\<close> or one
  \<open>ERROR\<close>: there, a state with a non-null error has no items.
\<close>

theorem component_error_no_items:
  assumes "run initialComponent es = Some c"
    and "state.error (state c) \<noteq> None"
  shows "state.data (state c) = []"
  using run_error_invariant [OF assms(1)] assms(2)
  by (simp add: initialComponent_def initialState_def)

theorem component_error_no_items_witness:
  "run initialComponent [Mount, Settle (Inr \<lparr>ok = False, json = Inr [1::nat, 2]\<rparr>), Next]
     = Some \<lparr>state = \<lparr>state.data = [], isLoading = False,
                         state.error = Some fixed_message\<rparr>,
              pagination = 1, phase = Settled\<rparr> \<and>
   state.data (state \<lparr>state = \<lparr>state.data = ([] :: nat list), isLoading = False,
                         state.error = Some fixed_message\<rparr>,
              pagination = 1, phase = Settled\<rparr>) = []"
proof -
  let ?es = "[Mount, Settle (Inr \<lparr>ok = False, json = Inr [1::nat, 2]\<rparr>), Next]"
  let ?c = "\<lparr>state = \<lparr>state.data = ([] :: nat list), isLoading = False,
                         state.error = Some fixed_message\<rparr>,
              pagination = 1, phase = Settled\<rparr>"
  have r: "run initialComponent ?es = Some ?c"
    by (simp add: initialComponent_def initialState_def reducer_def LOADING_def ERROR_def
        handleFetch_settled_def fetchData_def fetchData_try_def truthy_def fixed_message_def
        handleNext_def totalPages_Nil)
  have e: "state.error (state ?c) \<noteq> None"
    by simp
  from r component_error_no_items [OF r e] show ?thesis
    by (intro conjI)
qed

end
